theory Spec2Isabelle
  imports Main
begin

section \<open>The runtime's numbers and strings\<close>

text \<open>
  The availability engine is the object \<open>timeSlotUtils\<close> of the salon management
  component. Its functions work on "HH:MM" strings and on JavaScript numbers.
  A number is modelled as \<open>int option\<close>: \<open>Some i\<close> is the integer \<open>i\<close>, \<open>None\<close> is NaN.
  Arithmetic with NaN gives NaN and every comparison with NaN is false, as in the runtime.
  The arithmetic of this section is exact integer arithmetic, which is the runtime's
  arithmetic on doubles as long as every value is an integer below \<open>2 ^ 53\<close> in size; the
  rounding beyond that is written out in a section of its own further down. Fractions and
  infinities are outside the model.
\<close>

type_synonym number = "int option"

definition num_add :: "number \<Rightarrow> number \<Rightarrow> number" where
  "num_add a b = (case a of None \<Rightarrow> None | Some x \<Rightarrow> (case b of None \<Rightarrow> None | Some y \<Rightarrow> Some (x + y)))"

definition num_mul :: "number \<Rightarrow> number \<Rightarrow> number" where
  "num_mul a b = (case a of None \<Rightarrow> None | Some x \<Rightarrow> (case b of None \<Rightarrow> None | Some y \<Rightarrow> Some (x * y)))"

definition num_lt :: "number \<Rightarrow> number \<Rightarrow> bool" where
  "num_lt a b = (case a of None \<Rightarrow> False | Some x \<Rightarrow> (case b of None \<Rightarrow> False | Some y \<Rightarrow> x < y))"

text \<open>\<open>Math.floor(a / 60)\<close> and \<open>a % 60\<close>: the remainder takes the sign of the dividend.\<close>

definition num_floor_div :: "number \<Rightarrow> int \<Rightarrow> number" where
  "num_floor_div a b = (case a of None \<Rightarrow> None | Some x \<Rightarrow> Some (x div b))"

definition num_rem :: "number \<Rightarrow> int \<Rightarrow> number" where
  "num_rem a b = (case a of None \<Rightarrow> None
                  | Some x \<Rightarrow> Some (if x < 0 then - ((- x) mod b) else x mod b))"

text \<open>
  The decimal digits. \<open>digitVal\<close> is the position of a character among them,
  \<open>digitChar\<close> the digit at a position below 10 (it is never asked for another one).
\<close>

definition decimalDigits :: string where
  "decimalDigits = ''0123456789''"

fun indexOf :: "char \<Rightarrow> string \<Rightarrow> nat option" where
  "indexOf c [] = None"
| "indexOf c (x # xs) = (if x = c then Some 0 else map_option Suc (indexOf c xs))"

definition digitVal :: "char \<Rightarrow> nat option" where
  "digitVal c = indexOf c decimalDigits"

definition digitChar :: "nat \<Rightarrow> char" where
  "digitChar n = decimalDigits ! n"

text \<open>The value of a run of decimal digits, read left to right; \<open>None\<close> on any other character.\<close>

fun digitsVal :: "nat \<Rightarrow> string \<Rightarrow> nat option" where
  "digitsVal acc [] = Some acc"
| "digitsVal acc (c # cs) =
     (case digitVal c of None \<Rightarrow> None | Some d \<Rightarrow> digitsVal (acc * 10 + d) cs)"

text \<open>
  \<open>Number(s)\<close> on a string: the empty string is 0, an optionally signed run of decimal
  digits is its value, and text that is no numeric literal (such as \<open>NaN\<close>) is NaN.
  Literals with surrounding white space, a fraction, an exponent or a radix prefix are
  outside the model and are read as NaN here; no "HH:MM" string has such a component.
\<close>

definition Number_of :: "string \<Rightarrow> number" where
  "Number_of s =
     (case s of
        [] \<Rightarrow> Some 0
      | c # r \<Rightarrow>
          if c = CHR ''-'' then (if r = [] then None else map_option (\<lambda>n. - int n) (digitsVal 0 r))
          else if c = CHR ''+'' then (if r = [] then None else map_option int (digitsVal 0 r))
          else map_option int (digitsVal 0 s))"

text \<open>
  \<open>n.toString()\<close> for an integer, and for NaN: every decimal digit, as the runtime prints
  an integer below \<open>2 ^ 53\<close> in size.
\<close>

fun natToString :: "nat \<Rightarrow> string" where
  "natToString n = (if n < 10 then [digitChar n] else natToString (n div 10) @ [digitChar (n mod 10)])"

declare natToString.simps [simp del]

definition num_toString :: "number \<Rightarrow> string" where
  "num_toString a =
     (case a of None \<Rightarrow> ''NaN''
      | Some x \<Rightarrow> if x < 0 then CHR ''-'' # natToString (nat (- x)) else natToString (nat x))"

text \<open>\<open>s.padStart(2, '0')\<close>.\<close>

definition padStart2 :: "string \<Rightarrow> string" where
  "padStart2 s = replicate (2 - length s) (CHR ''0'') @ s"

text \<open>\<open>s.split(sep)\<close> for a one-character separator: always at least one piece.\<close>

fun split :: "char \<Rightarrow> string \<Rightarrow> string list" where
  "split sep [] = [[]]"
| "split sep (c # cs) =
     (if c = sep then [] # split sep cs
      else (case split sep cs of [] \<Rightarrow> [[c]] | p # ps \<Rightarrow> (c # p) # ps))"

section \<open>Time conversion\<close>

text \<open>
  \<open>timeToMinutes\<close>: \<open>const [hours, minutes] = timeString.split(':').map(Number); return hours * 60 + minutes\<close>.
  With no colon in the string \<open>minutes\<close> is undefined and the sum is NaN; pieces after the
  second are ignored.
\<close>

definition timeToMinutes :: "string \<Rightarrow> number" where
  "timeToMinutes timeString =
     (case map Number_of (split (CHR '':'') timeString) of
        hours # minutes # _ \<Rightarrow> num_add (num_mul hours (Some 60)) minutes
      | _ \<Rightarrow> None)"

definition minutesToTime :: "number \<Rightarrow> string" where
  "minutesToTime minutes =
     (let hours = num_floor_div minutes 60;
          mins = num_rem minutes 60
      in padStart2 (num_toString hours) @ '':'' @ padStart2 (num_toString mins))"

section \<open>Interval overlap and end times\<close>

definition doTimeRangesOverlap :: "string \<Rightarrow> string \<Rightarrow> string \<Rightarrow> string \<Rightarrow> bool" where
  "doTimeRangesOverlap start1 end1 start2 end2 =
     (let start1Min = timeToMinutes start1;
          end1Min = timeToMinutes end1;
          start2Min = timeToMinutes start2;
          end2Min = timeToMinutes end2
      in num_lt start1Min end2Min \<and> num_lt start2Min end1Min)"

definition getAppointmentEndTime :: "string \<Rightarrow> int \<Rightarrow> string" where
  "getAppointmentEndTime startTime durationMinutes =
     (let startMinutes = timeToMinutes startTime;
          endMinutes = num_add startMinutes (Some durationMinutes)
      in minutesToTime endMinutes)"

text \<open>
  A well-formed "HH:MM" string: two decimal digits, a colon, two decimal digits.
  \<open>validClock\<close> asks in addition for an hour below 24 and a minute below 60.
\<close>

definition isDigit :: "char \<Rightarrow> bool" where
  "isDigit c = (digitVal c \<noteq> None)"

definition isHHMM :: "string \<Rightarrow> bool" where
  "isHHMM s =
     (case s of
        [h1, h2, c, m1, m2] \<Rightarrow> isDigit h1 \<and> isDigit h2 \<and> c = CHR '':'' \<and> isDigit m1 \<and> isDigit m2
      | _ \<Rightarrow> False)"

definition validClock :: "string \<Rightarrow> bool" where
  "validClock s =
     (case s of
        [h1, h2, c, m1, m2] \<Rightarrow>
          (case (digitVal h1, digitVal h2, digitVal m1, digitVal m2) of
             (Some a, Some b, Some x, Some y) \<Rightarrow> c = CHR '':'' \<and> a * 10 + b < 24 \<and> x * 10 + y < 60
           | _ \<Rightarrow> False)
      | _ \<Rightarrow> False)"

section \<open>Conflict check\<close>

datatype AppointmentStatus = Confirmed | Completed | Cancelled | NoShow

text \<open>
  The fields of an appointment that the engine reads. \<open>endTime\<close> is \<open>None\<close> when the
  field is missing from the stored row.
\<close>

record Appointment =
  staffId :: string
  date :: string
  time :: string
  endTime :: "string option"
  status :: AppointmentStatus

text \<open>
  \<open>appointment.endTime || getAppointmentEndTime(appointment.time, 60)\<close>: the right operand
  is taken for every falsy left operand, so for a missing field and for the empty string.
\<close>

definition appointmentEndTime :: "Appointment \<Rightarrow> string" where
  "appointmentEndTime appointment =
     (case endTime appointment of
        None \<Rightarrow> getAppointmentEndTime (time appointment) 60
      | Some e \<Rightarrow> if e = [] then getAppointmentEndTime (time appointment) 60 else e)"

text \<open>The \<open>for\<close> loop of \<open>isTimeSlotAvailable\<close>, which returns false at the first overlap.\<close>

fun conflictLoop :: "string \<Rightarrow> string \<Rightarrow> Appointment list \<Rightarrow> string \<Rightarrow> string \<Rightarrow> bool" where
  "conflictLoop proposedStartTime proposedEndTime [] sid dt = True"
| "conflictLoop proposedStartTime proposedEndTime (appointment # rest) sid dt =
     (if staffId appointment = sid \<and> date appointment = dt \<and> status appointment \<noteq> Cancelled
      then (if doTimeRangesOverlap proposedStartTime proposedEndTime
                 (time appointment) (appointmentEndTime appointment)
            then False
            else conflictLoop proposedStartTime proposedEndTime rest sid dt)
      else conflictLoop proposedStartTime proposedEndTime rest sid dt)"

definition isTimeSlotAvailable ::
  "string \<Rightarrow> int \<Rightarrow> Appointment list \<Rightarrow> string \<Rightarrow> string \<Rightarrow> bool" where
  "isTimeSlotAvailable proposedStartTime serviceDuration existingAppointments sid dt =
     (let proposedEndTime = getAppointmentEndTime proposedStartTime serviceDuration
      in conflictLoop proposedStartTime proposedEndTime existingAppointments sid dt)"

text \<open>
  The effective end of an appointment in the specification's words, in minutes: its
  \<open>endTime\<close> when present and otherwise its \<open>time\<close> plus 60 minutes. It is compared below
  with \<open>appointmentEndTime\<close>, which is what the code computes.
\<close>

definition spec_effectiveEnd :: "Appointment \<Rightarrow> number" where
  "spec_effectiveEnd appointment =
     (case endTime appointment of
        Some e \<Rightarrow> timeToMinutes e
      | None \<Rightarrow> num_add (timeToMinutes (time appointment)) (Some 60))"

section \<open>Slot enumeration\<close>

text \<open>
  One entry of \<open>StaffAvailability\<close>, \<open>{start, end, available}\<close>; the field \<open>end\<close> is
  called \<open>finish\<close> here, \<open>end\<close> being a keyword. A day that is no key of the availability
  object is \<open>None\<close> in the map.
\<close>

record DayAvailability =
  start :: string
  finish :: string
  available :: bool

record StaffMember =
  staffMemberId :: string
  availability :: "string \<rightharpoonup> DayAvailability"

record Service =
  duration :: int

text \<open>
  \<open>new Date(`2000-01-01T${t}:00`)\<close> for a clock time \<open>t\<close>, as minutes after local midnight
  of that day; \<open>None\<close> is the invalid date. The model is exact for two-digit hours 00 to 23
  and two-digit minutes 00 to 59. Other strings are outside the modelled domain and are read
  as the invalid date.
\<close>

definition dateOfClock :: "string \<Rightarrow> number" where
  "dateOfClock s =
     (case s of
        [h1, h2, c, m1, m2] \<Rightarrow>
          (case (digitVal h1, digitVal h2, digitVal m1, digitVal m2) of
             (Some a, Some b, Some x, Some y) \<Rightarrow>
               if c = CHR '':'' \<and> a * 10 + b < 24 \<and> x * 10 + y < 60
               then Some (int ((a * 10 + b) * 60 + (x * 10 + y)))
               else None
           | _ \<Rightarrow> None)
      | _ \<Rightarrow> None)"

text \<open>
  \<open>time.toTimeString().slice(0, 5)\<close> for a date \<open>t\<close> minutes after local midnight: the
  wall-clock hour and minute, two digits each.
\<close>

definition toTimeString5 :: "int \<Rightarrow> string" where
  "toTimeString5 t =
     padStart2 (natToString (nat ((t div 60) mod 24))) @ '':'' @ padStart2 (natToString (nat (t mod 60)))"

text \<open>
  The loop \<open>for (let time = new Date(start); time < end; time.setMinutes(time.getMinutes() + 30))\<close>
  with both dates valid. Dates are counted in minutes, so \<open>serviceDuration * 60000\<close>
  milliseconds are \<open>serviceDuration\<close> minutes. The list returned is \<open>timeSlots\<close>, in the
  order of the pushes.
\<close>

function slotLoop ::
  "int \<Rightarrow> int \<Rightarrow> int \<Rightarrow> Appointment list \<Rightarrow> string \<Rightarrow> string \<Rightarrow> string list" where
  "slotLoop t e serviceDuration existingAppointments sid dt =
     (if t < e
      then (let timeString = toTimeString5 t;
                serviceEndTime = t + serviceDuration
            in (if serviceEndTime \<le> e
                   \<and> isTimeSlotAvailable timeString serviceDuration existingAppointments sid dt
                then [timeString] else [])
               @ slotLoop (t + 30) e serviceDuration existingAppointments sid dt)
      else [])"
  by pat_completeness auto
termination
  by (relation "measure (\<lambda>(t, e, d, a, s, dt). nat (e - t))") auto

declare slotLoop.simps [simp del]

text \<open>
  \<open>generateAvailableTimeSlots\<close>. The weekday name of the date,
  \<open>new Date(date).toLocaleDateString("en-US", {weekday: "long"}).toLowerCase()\<close>, depends on
  the time zone of the runtime and is the parameter \<open>dayNameOf\<close>. With an invalid start or
  end date every comparison of the loop is false and no slot is produced.
\<close>

definition generateAvailableTimeSlots ::
  "(string \<Rightarrow> string) \<Rightarrow> string \<Rightarrow> StaffMember \<Rightarrow> Service \<Rightarrow> Appointment list \<Rightarrow> string list" where
  "generateAvailableTimeSlots dayNameOf dt staffMember service existingAppointments =
     (let dayName = dayNameOf dt
      in case availability staffMember dayName of
           None \<Rightarrow> []
         | Some av \<Rightarrow>
             if \<not> available av then []
             else (let startTime = start av;
                       endTime' = finish av;
                       serviceDuration = duration service
                   in case (dateOfClock startTime, dateOfClock endTime') of
                        (Some s, Some e) \<Rightarrow>
                          slotLoop s e serviceDuration existingAppointments
                            (staffMemberId staffMember) dt
                      | _ \<Rightarrow> []))"

section \<open>The conversions in binary64 arithmetic\<close>

text \<open>
  The runtime's numbers are binary64 doubles. On integers every sum, product and floored
  quotient of the functions above is exact as long as all values stay below \<open>2 ^ 53\<close>;
  from there on a result is rounded to the nearest double, ties to the even significand.
  The definitions of this section are \<open>timeToMinutes\<close> and \<open>minutesToTime\<close> again with that
  rounding written out. They are the runtime's results for integer-valued doubles whose
  hour and minute components stay below \<open>2 ^ 53\<close>, so for minute values up to \<open>60 * 2 ^ 53\<close>:
  such components are printed and read digit by digit, while the sums and products built
  from them may exceed \<open>2 ^ 53\<close> and are rounded.
\<close>

text \<open>The position of the highest set bit: \<open>2 ^ ilog2 n \<le> n < 2 ^ (ilog2 n + 1)\<close> for \<open>n > 0\<close>.\<close>

function ilog2 :: "int \<Rightarrow> nat" where
  "ilog2 n = (if n < 2 then 0 else Suc (ilog2 (n div 2)))"
  by pat_completeness auto
termination
  by (relation "measure nat") auto

declare ilog2.simps [simp del]

text \<open>The integer nearest to \<open>a / b\<close> for \<open>a \<ge> 0\<close> and \<open>b > 0\<close>, a tie going to the even one.\<close>

definition roundHalfEven :: "int \<Rightarrow> int \<Rightarrow> int" where
  "roundHalfEven a b =
     (let q = a div b; r = a mod b
      in if 2 * r < b then q else if b < 2 * r then q + 1 else if even q then q else q + 1)"

text \<open>
  The double nearest to an integer: integers of at most 53 bits are doubles, a longer one
  is rounded to its 53 leading bits.
\<close>

definition roundDouble :: "int \<Rightarrow> int" where
  "roundDouble x =
     (let e = ilog2 \<bar>x\<bar>
      in if e \<le> 52 then x
         else sgn x * (roundHalfEven \<bar>x\<bar> (2 ^ (e - 52)) * 2 ^ (e - 52)))"

text \<open>
  \<open>Math.floor(a / b)\<close> for integer-valued doubles \<open>a\<close> and \<open>0 < b < 2 ^ 53\<close>: the quotient is
  rounded to a double, which in general is no integer, and then floored. With
  \<open>2 ^ e \<le> \<bar>a\<bar> / b < 2 ^ (e + 1)\<close> the doubles near the quotient are the multiples of
  \<open>2 ^ (e - 52)\<close>. A quotient below 1 in size stays below 1.
\<close>

definition floorDiv64 :: "int \<Rightarrow> int \<Rightarrow> int" where
  "floorDiv64 a b =
     (if \<bar>a\<bar> < b then (if a < 0 then - 1 else 0)
      else (let e = ilog2 (\<bar>a\<bar> div b)
            in if e \<le> 52
               then (sgn a * roundHalfEven (\<bar>a\<bar> * 2 ^ (52 - e)) b) div 2 ^ (52 - e)
               else sgn a * (roundHalfEven \<bar>a\<bar> (b * 2 ^ (e - 52)) * 2 ^ (e - 52))))"

definition num_add64 :: "number \<Rightarrow> number \<Rightarrow> number" where
  "num_add64 a b = map_option roundDouble (num_add a b)"

definition num_mul64 :: "number \<Rightarrow> number \<Rightarrow> number" where
  "num_mul64 a b = map_option roundDouble (num_mul a b)"

definition num_floor_div64 :: "number \<Rightarrow> int \<Rightarrow> number" where
  "num_floor_div64 a b = (case a of None \<Rightarrow> None | Some x \<Rightarrow> Some (floorDiv64 x b))"

text \<open>
  \<open>Number(s)\<close> as a double: the value of the digits, rounded to the nearest double. The
  remainder \<open>%\<close> of two doubles is exact, so \<open>num_rem\<close> serves as it is.
\<close>

definition Number_of64 :: "string \<Rightarrow> number" where
  "Number_of64 s = map_option roundDouble (Number_of s)"

definition timeToMinutes64 :: "string \<Rightarrow> number" where
  "timeToMinutes64 timeString =
     (case map Number_of64 (split (CHR '':'') timeString) of
        hours # minutes # _ \<Rightarrow> num_add64 (num_mul64 hours (Some 60)) minutes
      | _ \<Rightarrow> None)"

definition minutesToTime64 :: "number \<Rightarrow> string" where
  "minutesToTime64 minutes =
     (let hours = num_floor_div64 minutes 60;
          mins = num_rem minutes 60
      in padStart2 (num_toString hours) @ '':'' @ padStart2 (num_toString mins))"

section \<open>Properties of the time conversion\<close>

lemma below_ten:
  assumes "n < (10::nat)"
  shows "n \<in> {0, 1, 2, 3, 4, 5, 6, 7, 8, 9}"
  using assms by auto

lemma digitVal_digitChar:
  assumes "n < 10"
  shows "digitVal (digitChar n) = Some n"
  using below_ten [OF assms]
  by (elim insertE emptyE) (simp_all add: digitVal_def digitChar_def decimalDigits_def)

lemma digitsVal_snoc:
  "digitsVal acc (xs @ [c]) =
     (case digitsVal acc xs of None \<Rightarrow> None
      | Some v \<Rightarrow> (case digitVal c of None \<Rightarrow> None | Some d \<Rightarrow> Some (v * 10 + d)))"
  by (induction xs arbitrary: acc) (auto split: option.splits)

lemma digitsVal_natToString: "digitsVal 0 (natToString n) = Some n"
proof (induction n rule: natToString.induct)
  case (1 n)
  show ?case
  proof (cases "n < 10")
    case True
    then show ?thesis
      by (simp add: natToString.simps [of n] digitVal_digitChar)
  next
    case False
    with 1 have "digitsVal 0 (natToString (n div 10)) = Some (n div 10)" by simp
    with False show ?thesis
      by (simp add: natToString.simps [of n] digitsVal_snoc digitVal_digitChar)
  qed
qed

lemma isDigit_digitChar: "n < 10 \<Longrightarrow> isDigit (digitChar n)"
  by (simp add: isDigit_def digitVal_digitChar)

lemma natToString_digits: "c \<in> set (natToString n) \<Longrightarrow> isDigit c"
proof (induction n rule: natToString.induct)
  case (1 n)
  then show ?case
    by (cases "n < 10") (auto simp: natToString.simps [of n] isDigit_digitChar)
qed

lemma natToString_nonempty: "natToString n \<noteq> []"
  by (cases "n < 10") (simp_all add: natToString.simps [of n])

lemma isDigit_zero: "isDigit (CHR ''0'')"
  by (simp add: isDigit_def digitVal_def decimalDigits_def)

lemma padStart2_digits: "\<forall>c\<in>set s. isDigit c \<Longrightarrow> c \<in> set (padStart2 s) \<Longrightarrow> isDigit c"
  by (auto simp: padStart2_def isDigit_zero)

lemma padStart2_nonempty: "s \<noteq> [] \<Longrightarrow> padStart2 s \<noteq> []"
  by (simp add: padStart2_def)

lemma digitsVal_zeros: "digitsVal 0 (replicate k (CHR ''0'') @ s) = digitsVal 0 s"
  by (induction k) (simp_all add: digitVal_def decimalDigits_def)

lemma digitsVal_padStart2: "digitsVal 0 (padStart2 s) = digitsVal 0 s"
  by (simp add: padStart2_def digitsVal_zeros)

lemma not_digit_colon: "\<not> isDigit (CHR '':'')"
  by (simp add: isDigit_def digitVal_def decimalDigits_def)

lemma not_digit_minus: "\<not> isDigit (CHR ''-'')"
  by (simp add: isDigit_def digitVal_def decimalDigits_def)

lemma not_digit_plus: "\<not> isDigit (CHR ''+'')"
  by (simp add: isDigit_def digitVal_def decimalDigits_def)

lemma Number_of_digits:
  assumes "s \<noteq> []" and "\<forall>c\<in>set s. isDigit c"
  shows "Number_of s = map_option int (digitsVal 0 s)"
proof -
  from assms obtain c r where s: "s = c # r" by (cases s) auto
  with assms(2) have "isDigit c" by simp
  then have "c \<noteq> CHR ''-''" "c \<noteq> CHR ''+''"
    using not_digit_minus not_digit_plus by auto
  with s show ?thesis by (simp add: Number_of_def)
qed

lemma Number_of_padded: "Number_of (padStart2 (natToString n)) = Some (int n)"
proof -
  have "padStart2 (natToString n) \<noteq> []"
    by (simp add: padStart2_nonempty natToString_nonempty)
  moreover have "\<forall>c\<in>set (padStart2 (natToString n)). isDigit c"
    using padStart2_digits natToString_digits by blast
  ultimately show ?thesis
    by (simp add: Number_of_digits digitsVal_padStart2 digitsVal_natToString)
qed

lemma split_no_sep: "sep \<notin> set xs \<Longrightarrow> split sep xs = [xs]"
  by (induction xs) auto

lemma split_at_sep: "sep \<notin> set xs \<Longrightarrow> split sep (xs @ sep # ys) = xs # split sep ys"
  by (induction xs) auto

lemma padded_no_colon: "CHR '':'' \<notin> set (padStart2 (natToString n))"
  using padStart2_digits natToString_digits not_digit_colon by blast

lemma split_join:
  "split (CHR '':'') (padStart2 (natToString h) @ CHR '':'' # padStart2 (natToString m))
     = [padStart2 (natToString h), padStart2 (natToString m)]"
  by (simp add: split_at_sep split_no_sep padded_no_colon)

lemma timeToMinutes_join:
  "timeToMinutes (padStart2 (natToString h) @ CHR '':'' # padStart2 (natToString m)) = Some (int h * 60 + int m)"
  by (simp add: timeToMinutes_def split_join Number_of_padded num_add_def num_mul_def)

lemma minutesToTime_nonneg:
  assumes "0 \<le> m"
  shows "minutesToTime (Some m) = padStart2 (natToString (nat (m div 60))) @ CHR '':'' # padStart2 (natToString (nat (m mod 60)))"
proof -
  from assms have "\<not> m div 60 < 0" "\<not> m mod 60 < 0" by simp_all
  with assms show ?thesis
    by (simp add: minutesToTime_def num_floor_div_def num_rem_def num_toString_def Let_def)
qed

lemma roundtrip_nonneg:
  assumes "0 \<le> m"
  shows "timeToMinutes (minutesToTime (Some m)) = Some m"
proof -
  from assms have "0 \<le> m div 60" "0 \<le> m mod 60" by simp_all
  then have "int (nat (m div 60)) * 60 + int (nat (m mod 60)) = m" by simp
  with assms show ?thesis
    by (simp only: minutesToTime_nonneg timeToMinutes_join)
qed

lemma pad2_explicit:
  assumes "n < 100"
  shows "padStart2 (natToString n) = [digitChar (n div 10), digitChar (n mod 10)]"
proof (cases "n < 10")
  case True
  then show ?thesis by (simp add: natToString.simps [of n] padStart2_def digitChar_def decimalDigits_def)
next
  case False
  with assms have "n div 10 < 10" by simp
  with False show ?thesis
    by (simp add: natToString.simps [of n] natToString.simps [of "n div 10"] padStart2_def)
qed

lemma minutesToTime_valid:
  assumes "0 \<le> m" "m \<le> 1439"
  shows "validClock (minutesToTime (Some m))"
proof -
  from assms have h: "nat (m div 60) < 24" and mi: "nat (m mod 60) < 60" by auto
  then have "nat (m div 60) < 100" "nat (m mod 60) < 100" by linarith+
  moreover have "nat (m div 60) div 10 < 10" "nat (m mod 60) div 10 < 10" using h mi by auto
  ultimately show ?thesis using assms h mi
    by (simp add: minutesToTime_nonneg pad2_explicit validClock_def digitVal_digitChar)
qed

lemma isHHMM_cases:
  assumes "isHHMM s"
  obtains h1 h2 m1 m2 where "s = [h1, h2, CHR '':'', m1, m2]"
    "isDigit h1" "isDigit h2" "isDigit m1" "isDigit m2"
  using assms
  by (auto simp: isHHMM_def split: list.splits)

lemma Number_of_two_digits:
  assumes "digitVal h1 = Some a" "digitVal h2 = Some b"
  shows "Number_of [h1, h2] = Some (int (a * 10 + b))"
proof -
  from assms have "isDigit h1" "isDigit h2" by (simp_all add: isDigit_def)
  then have "Number_of [h1, h2] = map_option int (digitsVal 0 [h1, h2])"
    by (intro Number_of_digits) auto
  with assms show ?thesis by simp
qed

lemma timeToMinutes_explicit:
  assumes "digitVal h1 = Some a" "digitVal h2 = Some b" "digitVal m1 = Some x" "digitVal m2 = Some y"
  shows "timeToMinutes [h1, h2, CHR '':'', m1, m2] = Some (int (a * 10 + b) * 60 + int (x * 10 + y))"
proof -
  from assms have "isDigit h1" "isDigit h2" "isDigit m1" "isDigit m2" by (simp_all add: isDigit_def)
  then have "h1 \<noteq> CHR '':''" "h2 \<noteq> CHR '':''" "m1 \<noteq> CHR '':''" "m2 \<noteq> CHR '':''"
    using not_digit_colon by auto
  then have "split (CHR '':'') [h1, h2, CHR '':'', m1, m2] = [[h1, h2], [m1, m2]]"
    by simp
  then show ?thesis
    using Number_of_two_digits [OF assms(1,2)] Number_of_two_digits [OF assms(3,4)]
    by (simp add: timeToMinutes_def num_add_def num_mul_def)
qed

lemma timeToMinutes_isHHMM:
  assumes "isHHMM s"
  shows "\<exists>v. timeToMinutes s = Some v \<and> 0 \<le> v"
proof -
  from assms obtain h1 h2 m1 m2 where s: "s = [h1, h2, CHR '':'', m1, m2]"
    and d: "isDigit h1" "isDigit h2" "isDigit m1" "isDigit m2"
    by (rule isHHMM_cases)
  from d obtain a b x y where "digitVal h1 = Some a" "digitVal h2 = Some b"
    "digitVal m1 = Some x" "digitVal m2 = Some y"
    by (auto simp: isDigit_def)
  from timeToMinutes_explicit [OF this] s show ?thesis by simp
qed

lemma dateOfClock_Some:
  assumes "dateOfClock s = Some v"
  shows "validClock s \<and> timeToMinutes s = Some v \<and> 0 \<le> v \<and> v < 1440"
proof -
  from assms obtain h1 h2 c m1 m2 where s: "s = [h1, h2, c, m1, m2]"
    by (auto simp: dateOfClock_def split: list.splits)
  with assms obtain a b x y where dv: "digitVal h1 = Some a" "digitVal h2 = Some b"
    "digitVal m1 = Some x" "digitVal m2 = Some y"
    by (auto simp: dateOfClock_def split: option.splits)
  with assms s have c: "c = CHR '':''" and r: "a * 10 + b < 24" "x * 10 + y < 60"
    and v: "v = int ((a * 10 + b) * 60 + (x * 10 + y))"
    by (auto simp: dateOfClock_def split: if_splits)
  from timeToMinutes_explicit [OF dv] s c v have "timeToMinutes s = Some v" by simp
  moreover from s c dv r have "validClock s" by (simp add: validClock_def)
  moreover from v r have "0 \<le> v" "v < 1440" by auto
  ultimately show ?thesis by simp
qed

lemma validClock_dateOfClock:
  assumes "validClock s"
  shows "\<exists>v. dateOfClock s = Some v"
  using assms
  by (auto simp: validClock_def dateOfClock_def split: list.splits option.splits)

lemma validClock_isHHMM: "validClock s \<Longrightarrow> isHHMM s"
  by (auto simp: validClock_def isHHMM_def isDigit_def split: list.splits option.splits)

lemma toTimeString5_minutes:
  assumes "0 \<le> t" "t < 1440"
  shows "timeToMinutes (toTimeString5 t) = Some t"
proof -
  from assms have "(t div 60) mod 24 = t div 60" by simp
  with assms have "toTimeString5 t = minutesToTime (Some t)"
    by (simp add: toTimeString5_def minutesToTime_nonneg)
  with assms show ?thesis by (simp add: roundtrip_nonneg)
qed

section \<open>Round trip of the time conversion\<close>

text \<open>
  Claim C8. For every integer \<open>m\<close> with \<open>0 \<le> m \<le> 1439\<close>, converting \<open>m\<close> to a time string
  and back gives \<open>m\<close> again, and the string is a well-formed "HH:MM": the hour
  \<open>m div 60\<close> and the minute \<open>m mod 60\<close>, each written with exactly two digits.
\<close>
theorem timeToMinutes_minutesToTime_day:
  assumes "0 \<le> m" and "m \<le> 1439"
  shows "timeToMinutes (minutesToTime (Some m)) = Some m
         \<and> isHHMM (minutesToTime (Some m))
         \<and> minutesToTime (Some m)
             = [digitChar (nat (m div 60) div 10), digitChar (nat (m div 60) mod 10), CHR '':'',
                digitChar (nat (m mod 60) div 10), digitChar (nat (m mod 60) mod 10)]"
proof -
  from assms have "nat (m div 60) < 100" "nat (m mod 60) < 100" by auto
  then have "minutesToTime (Some m)
     = [digitChar (nat (m div 60) div 10), digitChar (nat (m div 60) mod 10), CHR '':'',
        digitChar (nat (m mod 60) div 10), digitChar (nat (m mod 60) mod 10)]"
    using assms(1) by (simp add: minutesToTime_nonneg pad2_explicit)
  moreover have "isHHMM (minutesToTime (Some m))"
    using minutesToTime_valid [OF assms] by (rule validClock_isHHMM)
  ultimately show ?thesis
    using roundtrip_nonneg [OF assms(1)] by simp
qed

theorem timeToMinutes_minutesToTime_day_witness:
  "(0::int) \<le> 1439 \<and> (1439::int) \<le> 1439
   \<and> timeToMinutes (minutesToTime (Some 1439)) = Some 1439
   \<and> minutesToTime (Some 1439) = ''23:59''"
proof -
  have h: "(0::int) \<le> 1439" "(1439::int) \<le> 1439" by simp_all
  note t = timeToMinutes_minutesToTime_day [OF h]
  from t have "timeToMinutes (minutesToTime (Some 1439)) = Some 1439" by (rule conjunct1)
  moreover from t have "minutesToTime (Some 1439) = ''23:59''" by (simp add: digitChar_def decimalDigits_def)
  ultimately show ?thesis by (intro conjI h)
qed

lemma getAppointmentEndTime_minutes:
  assumes "timeToMinutes s = Some a" "0 \<le> a + d"
  shows "getAppointmentEndTime s d = minutesToTime (Some (a + d))"
    and "timeToMinutes (getAppointmentEndTime s d) = Some (a + d)"
  using assms by (simp_all add: getAppointmentEndTime_def num_add_def roundtrip_nonneg)

lemma ilog2_less: "n < 2 ^ Suc k \<Longrightarrow> ilog2 n \<le> k"
proof (induction k arbitrary: n)
  case 0
  then show ?case by (simp add: ilog2.simps [of n])
next
  case (Suc k)
  show ?case
  proof (cases "n < 2")
    case True
    then show ?thesis by (simp add: ilog2.simps [of n])
  next
    case False
    from Suc.prems have "n div 2 < 2 ^ Suc k" by simp
    then have "ilog2 (n div 2) \<le> k" by (rule Suc.IH)
    with False show ?thesis by (simp add: ilog2.simps [of n])
  qed
qed

lemma roundDouble_small: "\<bar>x\<bar> < 2 ^ 53 \<Longrightarrow> roundDouble x = x"
  using ilog2_less [of "\<bar>x\<bar>" 52] by (simp add: roundDouble_def Let_def)

lemma roundHalfEven_bounds:
  assumes "0 < b"
  shows "2 * a - b \<le> 2 * b * roundHalfEven a b" and "2 * b * roundHalfEven a b \<le> 2 * a + b"
proof -
  have a: "a = b * (a div b) + a mod b" by simp
  have r: "0 \<le> a mod b" "a mod b < b" using assms by simp_all
  define q where "q = a div b"
  define r where "r = a mod b"
  have bq: "b * (q + 1) = b * q + b" by (simp add: algebra_simps)
  from a r have *: "a = b * q + r" "0 \<le> r" "r < b" by (simp_all add: q_def r_def)
  have "roundHalfEven a b = q \<and> 2 * r \<le> b \<or> roundHalfEven a b = q + 1 \<and> b \<le> 2 * r"
    by (auto simp: roundHalfEven_def Let_def q_def r_def)
  then show "2 * a - b \<le> 2 * b * roundHalfEven a b" and "2 * b * roundHalfEven a b \<le> 2 * a + b"
    using * bq by (auto simp: algebra_simps)
qed

lemma floorDiv64_exact:
  assumes "0 \<le> m" "m < 2 ^ 53"
  shows "floorDiv64 m 60 = m div 60"
proof (cases "m < 60")
  case True
  with assms show ?thesis by (simp add: floorDiv64_def)
next
  case False
  define Q where "Q = m div 60"
  define r where "r = m mod 60"
  define e where "e = ilog2 Q"
  define P :: int where "P = 2 ^ (52 - e)"
  define n where "n = roundHalfEven (m * P) 60"
  have m: "m = 60 * Q + r" "0 \<le> r" "r \<le> 59" by (simp_all add: Q_def r_def)
  from assms(2) have "Q < 2 ^ Suc 47" by (simp add: Q_def)
  then have e: "e \<le> 47" unfolding e_def by (rule ilog2_less)
  then have "(2::int) ^ 5 \<le> 2 ^ (52 - e)" by (intro power_increasing) simp_all
  then have P: "32 \<le> P" by (simp add: P_def)
  have mP: "m * P = 60 * (Q * P) + r * P" by (simp add: m(1) algebra_simps)
  from m(2,3) P have rP: "0 \<le> r * P" "r * P \<le> 59 * P"
    by (simp_all add: mult_right_mono)
  from roundHalfEven_bounds [of 60 "m * P"]
  have "2 * (m * P) - 60 \<le> 120 * n" "120 * n \<le> 2 * (m * P) + 60" by (simp_all add: n_def)
  with mP rP P have lo: "Q * P \<le> n" and hi: "n < Q * P + P" by linarith+
  have "n div P = Q"
  proof -
    from lo hi have "0 \<le> n - Q * P" "n - Q * P < P" by simp_all
    then have z: "(n - Q * P) div P = 0" by simp
    from P have "P \<noteq> 0" by simp
    then have "((n - Q * P) + Q * P) div P = Q + (n - Q * P) div P" by (rule div_mult_self1)
    with z show ?thesis by simp
  qed
  moreover from False assms have "sgn m = 1" "\<bar>m\<bar> = m" by simp_all
  ultimately show ?thesis using False e
    by (simp add: floorDiv64_def Let_def Q_def [symmetric] e_def [symmetric] P_def [symmetric] n_def [symmetric])
qed


lemma minutesToTime64_exact:
  assumes "0 \<le> m" "m < 2 ^ 53"
  shows "minutesToTime64 (Some m) = minutesToTime (Some m)"
  using floorDiv64_exact [OF assms]
  by (simp add: minutesToTime64_def minutesToTime_def num_floor_div64_def num_floor_div_def)

lemma timeToMinutes64_join:
  assumes "int h * 60 + int mi < 2 ^ 53"
  shows "timeToMinutes64 (padStart2 (natToString h) @ CHR '':'' # padStart2 (natToString mi))
           = Some (int h * 60 + int mi)"
proof -
  from assms have "\<bar>int h\<bar> < 2 ^ 53" "\<bar>int mi\<bar> < 2 ^ 53" "\<bar>int h * 60\<bar> < 2 ^ 53"
    "\<bar>int h * 60 + int mi\<bar> < 2 ^ 53"
    by simp_all
  then have "roundDouble (int h) = int h" "roundDouble (int mi) = int mi"
    "roundDouble (int h * 60) = int h * 60"
    "roundDouble (int h * 60 + int mi) = int h * 60 + int mi"
    by (simp_all only: roundDouble_small)
  then show ?thesis
    by (simp add: timeToMinutes64_def split_join Number_of64_def Number_of_padded
        num_add64_def num_mul64_def num_add_def num_mul_def)
qed

lemma roundtrip64:
  assumes "0 \<le> m" "m < 2 ^ 53"
  shows "timeToMinutes64 (minutesToTime64 (Some m)) = Some m"
proof -
  from assms(1) have "0 \<le> m div 60" "0 \<le> m mod 60" by simp_all
  then have eq: "int (nat (m div 60)) * 60 + int (nat (m mod 60)) = m" by simp
  with assms(2) have "int (nat (m div 60)) * 60 + int (nat (m mod 60)) < 2 ^ 53" by simp
  from timeToMinutes64_join [OF this] eq
  show ?thesis
    by (simp only: minutesToTime64_exact [OF assms] minutesToTime_nonneg [OF assms(1)])
qed

text \<open>
  Claim C10, as the code has it. \<open>minutesToTime\<close> never reduces its argument modulo 1440:
  for every non-negative integer \<open>m\<close> below \<open>2 ^ 53\<close>, the range in which the runtime's
  arithmetic on doubles is exact, the round trip through the string gives \<open>m\<close> (in exact
  and in binary64 arithmetic, which agree there), the hour component of the string is
  \<open>m div 60\<close>, which is 24 or more from \<open>m = 1440\<close> on (1530 minutes are \<open>25:30\<close>), and
  \<open>getAppointmentEndTime\<close> of a well-formed start at minute \<open>a\<close> and a duration \<open>d\<close> with
  \<open>a + d = m\<close> is that same string, so a booking that runs past midnight ends at an hour
  of 24 or more instead of wrapping to the next day. Beyond \<open>2 ^ 53\<close> the round trip can
  lose the low bits of \<open>m\<close>, as the double 36028797018964024 shows further down.
\<close>
theorem minutesToTime_no_wrap:
  assumes "0 \<le> m" and "m < 2 ^ 53"
  shows "timeToMinutes (minutesToTime (Some m)) = Some m
         \<and> minutesToTime64 (Some m) = minutesToTime (Some m)
         \<and> timeToMinutes64 (minutesToTime64 (Some m)) = Some m
         \<and> map Number_of (split (CHR '':'') (minutesToTime (Some m))) = [Some (m div 60), Some (m mod 60)]
         \<and> (1440 \<le> m \<longrightarrow> 24 \<le> m div 60)
         \<and> minutesToTime (Some 1530) = ''25:30''
         \<and> (isHHMM s \<and> timeToMinutes s = Some a \<and> 0 \<le> d \<and> a + d = m \<longrightarrow>
              getAppointmentEndTime s d = minutesToTime (Some m)
              \<and> timeToMinutes (getAppointmentEndTime s d) = Some m)"
proof -
  from assms(1) have nn: "0 \<le> m div 60" "0 \<le> m mod 60" by simp_all
  have "map Number_of (split (CHR '':'') (minutesToTime (Some m))) = [Some (m div 60), Some (m mod 60)]"
    using nn by (simp add: minutesToTime_nonneg [OF assms(1)] split_join Number_of_padded)
  moreover have "1440 \<le> m \<longrightarrow> 24 \<le> m div 60" by auto
  moreover have "minutesToTime (Some 1530) = ''25:30''"
    by (simp add: minutesToTime_nonneg pad2_explicit digitChar_def decimalDigits_def)
  moreover have "isHHMM s \<and> timeToMinutes s = Some a \<and> 0 \<le> d \<and> a + d = m \<longrightarrow>
              getAppointmentEndTime s d = minutesToTime (Some m)
              \<and> timeToMinutes (getAppointmentEndTime s d) = Some m"
    using assms(1) getAppointmentEndTime_minutes by auto
  moreover note roundtrip_nonneg [OF assms(1)] minutesToTime64_exact [OF assms] roundtrip64 [OF assms]
  ultimately show ?thesis by (intro conjI)
qed

lemma isHHMM_2330: "isHHMM ''23:30''"
  by (simp add: isHHMM_def isDigit_def digitVal_def decimalDigits_def)

theorem minutesToTime_no_wrap_witness:
  "(0::int) \<le> 1530 \<and> (1530::int) < 2 ^ 53
   \<and> timeToMinutes (minutesToTime (Some 1530)) = Some 1530
   \<and> timeToMinutes64 (minutesToTime64 (Some 1530)) = Some 1530
   \<and> isHHMM ''23:30''
   \<and> getAppointmentEndTime ''23:30'' 120 = ''25:30''
   \<and> timeToMinutes (getAppointmentEndTime ''23:30'' 120) = Some 1530"
proof -
  have t: "timeToMinutes ''23:30'' = Some 1410"
    using timeToMinutes_explicit [of "CHR ''2''" 2 "CHR ''3''" 3 "CHR ''3''" 3 "CHR ''0''" 0]
    by (simp add: digitVal_def decimalDigits_def)
  have h: "(0::int) \<le> 1530" "(1530::int) < 2 ^ 53" by simp_all
  note w = minutesToTime_no_wrap [OF h, of "''23:30''" 1410 120]
  from w have a: "timeToMinutes (minutesToTime (Some 1530)) = Some 1530" by (rule conjunct1)
  from w have a64: "timeToMinutes64 (minutesToTime64 (Some 1530)) = Some 1530" by blast
  from w have b: "minutesToTime (Some 1530) = ''25:30''" by blast
  have e: "(0::int) \<le> 120" "(1410::int) + 120 = 1530" by simp_all
  from w t e isHHMM_2330 have c: "getAppointmentEndTime ''23:30'' 120 = minutesToTime (Some 1530)"
    by blast
  from w t e isHHMM_2330 have d: "timeToMinutes (getAppointmentEndTime ''23:30'' 120) = Some 1530"
    by blast
  from c b have "getAppointmentEndTime ''23:30'' 120 = ''25:30''" by (rule trans)
  with a a64 d h isHHMM_2330 show ?thesis by (intro conjI)
qed

lemma overlap_minutes:
  assumes "timeToMinutes start1 = Some a" "timeToMinutes end1 = Some b"
    "timeToMinutes start2 = Some c" "timeToMinutes end2 = Some d"
  shows "doTimeRangesOverlap start1 end1 start2 end2 = (a < d \<and> c < b)"
  using assms by (simp add: doTimeRangesOverlap_def num_lt_def)

lemma timeToMinutes_0900: "timeToMinutes ''09:00'' = Some 540"
  using timeToMinutes_explicit [of "CHR ''0''" 0 "CHR ''9''" 9 "CHR ''0''" 0 "CHR ''0''" 0]
  by (simp add: digitVal_def decimalDigits_def)

lemma timeToMinutes_1000: "timeToMinutes ''10:00'' = Some 600"
  using timeToMinutes_explicit [of "CHR ''1''" 1 "CHR ''0''" 0 "CHR ''0''" 0 "CHR ''0''" 0]
  by (simp add: digitVal_def decimalDigits_def)

lemma timeToMinutes_1100: "timeToMinutes ''11:00'' = Some 660"
  using timeToMinutes_explicit [of "CHR ''1''" 1 "CHR ''1''" 1 "CHR ''0''" 0 "CHR ''0''" 0]
  by (simp add: digitVal_def decimalDigits_def)

section \<open>Properties of the interval overlap\<close>

text \<open>
  Claim C2. For well-formed "HH:MM" strings the four minute values exist, and
  \<open>doTimeRangesOverlap start1 end1 start2 end2\<close> is true exactly when the minutes of \<open>start1\<close>
  are below those of \<open>end2\<close> and the minutes of \<open>start2\<close> are below those of \<open>end1\<close>. So two
  back-to-back ranges, one ending where the other starts, do not overlap, in either order
  (09:00 to 10:00 against 10:00 to 11:00 is false), and a range overlaps itself exactly when
  its start is strictly before its end.
\<close>
theorem doTimeRangesOverlap_strict:
  assumes "isHHMM start1" and "isHHMM end1" and "isHHMM start2" and "isHHMM end2"
  shows "\<exists>s1 e1 s2 e2.
           timeToMinutes start1 = Some s1 \<and> timeToMinutes end1 = Some e1
           \<and> timeToMinutes start2 = Some s2 \<and> timeToMinutes end2 = Some e2
           \<and> doTimeRangesOverlap start1 end1 start2 end2 = (s1 < e2 \<and> s2 < e1)
           \<and> doTimeRangesOverlap start1 end1 end1 end2 = False
           \<and> doTimeRangesOverlap end1 end2 start1 end1 = False
           \<and> doTimeRangesOverlap start1 end1 start1 end1 = (s1 < e1)
           \<and> doTimeRangesOverlap ''09:00'' ''10:00'' ''10:00'' ''11:00'' = False"
proof -
  obtain s1 where m1: "timeToMinutes start1 = Some s1"
    using timeToMinutes_isHHMM [OF assms(1)] by blast
  obtain e1 where m2: "timeToMinutes end1 = Some e1"
    using timeToMinutes_isHHMM [OF assms(2)] by blast
  obtain s2 where m3: "timeToMinutes start2 = Some s2"
    using timeToMinutes_isHHMM [OF assms(3)] by blast
  obtain e2 where m4: "timeToMinutes end2 = Some e2"
    using timeToMinutes_isHHMM [OF assms(4)] by blast
  note m = m1 m2 m3 m4
  have "doTimeRangesOverlap ''09:00'' ''10:00'' ''10:00'' ''11:00'' = False"
    by (simp add: overlap_minutes [OF timeToMinutes_0900 timeToMinutes_1000 timeToMinutes_1000 timeToMinutes_1100])
  moreover have "doTimeRangesOverlap start1 end1 start2 end2 = (s1 < e2 \<and> s2 < e1)"
    using m by (rule overlap_minutes)
  moreover have "doTimeRangesOverlap start1 end1 end1 end2 = False"
    by (simp add: overlap_minutes [OF m(1) m(2) m(2) m(4)])
  moreover have "doTimeRangesOverlap end1 end2 start1 end1 = False"
    by (simp add: overlap_minutes [OF m(2) m(4) m(1) m(2)])
  moreover have "doTimeRangesOverlap start1 end1 start1 end1 = (s1 < e1)"
    by (simp add: overlap_minutes [OF m(1) m(2) m(1) m(2)])
  ultimately show ?thesis using m by blast
qed

lemma isHHMM_0900: "isHHMM ''09:00''"
  by (simp add: isHHMM_def isDigit_def digitVal_def decimalDigits_def)

lemma isHHMM_1000: "isHHMM ''10:00''"
  by (simp add: isHHMM_def isDigit_def digitVal_def decimalDigits_def)

lemma isHHMM_1100: "isHHMM ''11:00''"
  by (simp add: isHHMM_def isDigit_def digitVal_def decimalDigits_def)

theorem doTimeRangesOverlap_strict_witness:
  "isHHMM ''09:00'' \<and> isHHMM ''10:00'' \<and> isHHMM ''11:00''
   \<and> doTimeRangesOverlap ''09:00'' ''10:00'' ''10:00'' ''11:00'' = False
   \<and> doTimeRangesOverlap ''09:00'' ''10:00'' ''09:00'' ''10:00'' = True"
proof -
  from doTimeRangesOverlap_strict [OF isHHMM_0900 isHHMM_1000 isHHMM_1000 isHHMM_1100]
  obtain s1 e1 where "timeToMinutes ''09:00'' = Some s1" "timeToMinutes ''10:00'' = Some e1"
    and b: "doTimeRangesOverlap ''09:00'' ''10:00'' ''10:00'' ''11:00'' = False"
    and s: "doTimeRangesOverlap ''09:00'' ''10:00'' ''09:00'' ''10:00'' = (s1 < e1)"
    by blast
  then have "s1 < e1" by (simp add: timeToMinutes_0900 timeToMinutes_1000)
  with s b show ?thesis by (simp add: isHHMM_0900 isHHMM_1000 isHHMM_1100)
qed

lemma conflictLoop_iff:
  "conflictLoop p pe appts sid dt =
     (\<forall>a\<in>set appts. staffId a = sid \<and> date a = dt \<and> status a \<noteq> Cancelled
        \<longrightarrow> \<not> doTimeRangesOverlap p pe (time a) (appointmentEndTime a))"
  by (induction appts) auto

lemma appointmentEndTime_minutes:
  assumes "isHHMM (time a)" and "\<And>e. endTime a = Some e \<Longrightarrow> isHHMM e"
  shows "timeToMinutes (appointmentEndTime a) = spec_effectiveEnd a"
proof (cases "endTime a")
  case None
  from assms(1) obtain v where v: "timeToMinutes (time a) = Some v" "0 \<le> v"
    using timeToMinutes_isHHMM by blast
  then have "timeToMinutes (getAppointmentEndTime (time a) 60) = Some (v + 60)"
    by (intro getAppointmentEndTime_minutes) simp_all
  with None v show ?thesis
    by (simp add: appointmentEndTime_def spec_effectiveEnd_def num_add_def)
next
  case (Some e)
  with assms(2) have "isHHMM e" by simp
  then have "e \<noteq> []" by (auto simp: isHHMM_def)
  with Some show ?thesis by (simp add: appointmentEndTime_def spec_effectiveEnd_def)
qed

lemma spec_effectiveEnd_Some:
  assumes "isHHMM (time a)" and "\<And>e. endTime a = Some e \<Longrightarrow> isHHMM e"
  shows "\<exists>v. spec_effectiveEnd a = Some v"
proof (cases "endTime a")
  case None
  from assms(1) obtain v where "timeToMinutes (time a) = Some v"
    using timeToMinutes_isHHMM by blast
  with None show ?thesis by (simp add: spec_effectiveEnd_def num_add_def)
next
  case (Some e)
  with assms(2) have "isHHMM e" by simp
  then obtain v where "timeToMinutes e = Some v" using timeToMinutes_isHHMM by blast
  with Some show ?thesis by (simp add: spec_effectiveEnd_def)
qed

section \<open>Properties of the conflict check\<close>

text \<open>
  Claim C1. For a well-formed proposed start, a positive duration and appointments whose
  time strings are well-formed, \<open>isTimeSlotAvailable\<close> returns false if and only if some
  appointment of the list has the given staff id and date, a status other than cancelled,
  and an interval from its time to its effective end that overlaps the proposed interval:
  the proposed start is before the effective end and the appointment's time is before the
  proposed start plus the duration. The effective end is the \<open>endTime\<close> when present and the
  time plus 60 minutes otherwise. With no such appointment, so on the empty list, the
  result is true.
\<close>
theorem isTimeSlotAvailable_iff:
  assumes "isHHMM proposedStart" and "0 < serviceDuration"
    and "\<forall>a\<in>set appts. isHHMM (time a) \<and> (\<forall>e. endTime a = Some e \<longrightarrow> isHHMM e)"
  shows "\<exists>ps. timeToMinutes proposedStart = Some ps \<and>
           (isTimeSlotAvailable proposedStart serviceDuration appts sid dt = False) =
           (\<exists>a\<in>set appts. staffId a = sid \<and> date a = dt \<and> status a \<noteq> Cancelled
              \<and> (\<exists>at ae. timeToMinutes (time a) = Some at \<and> spec_effectiveEnd a = Some ae
                    \<and> ps < ae \<and> at < ps + serviceDuration))"
proof -
  from assms(1) obtain ps where ps: "timeToMinutes proposedStart = Some ps" "0 \<le> ps"
    using timeToMinutes_isHHMM by blast
  with assms(2) have pe: "timeToMinutes (getAppointmentEndTime proposedStart serviceDuration)
      = Some (ps + serviceDuration)"
    by (intro getAppointmentEndTime_minutes) simp_all
  have one: "doTimeRangesOverlap proposedStart (getAppointmentEndTime proposedStart serviceDuration)
               (time a) (appointmentEndTime a)
             = (\<exists>at ae. timeToMinutes (time a) = Some at \<and> spec_effectiveEnd a = Some ae
                    \<and> ps < ae \<and> at < ps + serviceDuration)"
    if "a \<in> set appts" for a
  proof -
    from that assms(3) have wf: "isHHMM (time a)" "\<And>e. endTime a = Some e \<Longrightarrow> isHHMM e"
      by auto
    then obtain at where at: "timeToMinutes (time a) = Some at"
      using timeToMinutes_isHHMM by blast
    from wf obtain ae where ae: "spec_effectiveEnd a = Some ae"
      using spec_effectiveEnd_Some by blast
    with wf have "timeToMinutes (appointmentEndTime a) = Some ae"
      by (simp add: appointmentEndTime_minutes)
    from overlap_minutes [OF ps(1) pe at this] at ae show ?thesis by simp
  qed
  have "(isTimeSlotAvailable proposedStart serviceDuration appts sid dt = False) =
        (\<exists>a\<in>set appts. staffId a = sid \<and> date a = dt \<and> status a \<noteq> Cancelled
           \<and> doTimeRangesOverlap proposedStart (getAppointmentEndTime proposedStart serviceDuration)
               (time a) (appointmentEndTime a))"
    by (auto simp: isTimeSlotAvailable_def conflictLoop_iff)
  also have "\<dots> = (\<exists>a\<in>set appts. staffId a = sid \<and> date a = dt \<and> status a \<noteq> Cancelled
              \<and> (\<exists>at ae. timeToMinutes (time a) = Some at \<and> spec_effectiveEnd a = Some ae
                    \<and> ps < ae \<and> at < ps + serviceDuration))"
    using one by blast
  finally show ?thesis using ps(1) by blast
qed

lemmas time_eval = timeToMinutes_def Number_of_def digitVal_def decimalDigits_def
  num_add_def num_mul_def

lemmas string_eval = minutesToTime_def num_floor_div_def num_rem_def num_toString_def
  natToString.simps padStart2_def digitChar_def getAppointmentEndTime_def

lemma timeToMinutes_0930: "timeToMinutes ''09:30'' = Some 570"
  by (simp add: time_eval)

lemma isHHMM_0930: "isHHMM ''09:30''"
  by (simp add: isHHMM_def isDigit_def digitVal_def decimalDigits_def)

theorem isTimeSlotAvailable_iff_witness:
  "isHHMM ''09:30'' \<and> (0::int) < 30
   \<and> isTimeSlotAvailable ''09:30'' 30
        [\<lparr>staffId = ''s1'', date = ''2025-07-14'', time = ''09:00'', endTime = Some ''10:00'',
          status = Confirmed\<rparr>] ''s1'' ''2025-07-14'' = False
   \<and> isTimeSlotAvailable ''10:00'' 30
        [\<lparr>staffId = ''s1'', date = ''2025-07-14'', time = ''09:00'', endTime = Some ''10:00'',
          status = Confirmed\<rparr>] ''s1'' ''2025-07-14'' = True
   \<and> isTimeSlotAvailable ''09:30'' 30 [] ''s1'' ''2025-07-14'' = True"
proof -
  let ?a = "\<lparr>staffId = ''s1'', date = ''2025-07-14'', time = ''09:00'', endTime = Some ''10:00'',
          status = Confirmed\<rparr>"
  have d: "(0::int) < 30" by simp
  have wf: "\<forall>a\<in>set [?a]. isHHMM (time a) \<and> (\<forall>e. endTime a = Some e \<longrightarrow> isHHMM e)"
    by (simp add: isHHMM_0900 isHHMM_1000)
  have wf0: "\<forall>a\<in>set ([]::Appointment list). isHHMM (time a) \<and> (\<forall>e. endTime a = Some e \<longrightarrow> isHHMM e)"
    by simp
  have e: "spec_effectiveEnd ?a = Some 600"
    by (simp add: spec_effectiveEnd_def timeToMinutes_1000)
  from isTimeSlotAvailable_iff [OF isHHMM_0930 d wf, of "''s1''" "''2025-07-14''"]
  have one: "isTimeSlotAvailable ''09:30'' 30 [?a] ''s1'' ''2025-07-14'' = False"
    by (simp add: timeToMinutes_0930 timeToMinutes_0900 e)
  from isTimeSlotAvailable_iff [OF isHHMM_1000 d wf, of "''s1''" "''2025-07-14''"]
  have two: "isTimeSlotAvailable ''10:00'' 30 [?a] ''s1'' ''2025-07-14'' = True"
    by (simp add: timeToMinutes_1000 timeToMinutes_0900 e)
  from isTimeSlotAvailable_iff [OF isHHMM_0930 d wf0, of "''s1''" "''2025-07-14''"]
  have three: "isTimeSlotAvailable ''09:30'' 30 [] ''s1'' ''2025-07-14'' = True"
    by simp
  from one two three d show ?thesis by (simp add: isHHMM_0930)
qed

lemma conflictLoop_filter:
  "conflictLoop p pe (filter (\<lambda>a. status a \<noteq> Cancelled) appts) sid dt = conflictLoop p pe appts sid dt"
  by (induction appts) simp_all

text \<open>
  Claim C5. Cancelled appointments never cause a conflict: two appointment lists that
  agree once their cancelled appointments are removed give the same result of
  \<open>isTimeSlotAvailable\<close>, for every proposed start, duration, staff id and date. Adding
  cancelled appointments to a list, or removing them, therefore changes nothing; a single
  cancelled appointment from 09:00 to 10:00 leaves the slot 09:00 for 60 minutes available.
\<close>
theorem cancelled_appointments_ignored:
  assumes "filter (\<lambda>a. status a \<noteq> Cancelled) xs = filter (\<lambda>a. status a \<noteq> Cancelled) ys"
  shows "isTimeSlotAvailable proposedStart serviceDuration xs sid dt
         = isTimeSlotAvailable proposedStart serviceDuration ys sid dt"
proof -
  have "conflictLoop p pe xs sid dt = conflictLoop p pe ys sid dt" for p pe
    using conflictLoop_filter [of p pe xs sid dt] conflictLoop_filter [of p pe ys sid dt] assms
    by simp
  then show ?thesis by (simp add: isTimeSlotAvailable_def)
qed

theorem cancelled_appointments_ignored_witness:
  "isTimeSlotAvailable ''09:00'' 60
     [\<lparr>staffId = ''s1'', date = ''2025-07-14'', time = ''09:00'', endTime = Some ''10:00'',
       status = Cancelled\<rparr>] ''s1'' ''2025-07-14'' = True"
proof -
  let ?c = "\<lparr>staffId = ''s1'', date = ''2025-07-14'', time = ''09:00'', endTime = Some ''10:00'',
       status = Cancelled\<rparr>"
  have f: "filter (\<lambda>a. status a \<noteq> Cancelled) [?c] = filter (\<lambda>a. status a \<noteq> Cancelled) []"
    by simp
  have "isTimeSlotAvailable ''09:00'' 60 [] ''s1'' ''2025-07-14'' = True"
    by (simp add: isTimeSlotAvailable_def)
  with cancelled_appointments_ignored [OF f, of "''09:00''" 60 "''s1''" "''2025-07-14''"]
  show ?thesis by simp
qed

lemma conflictLoop_replace:
  assumes "staffId a = staffId b" "date a = date b" "status a = status b" "time a = time b"
    "appointmentEndTime a = appointmentEndTime b"
  shows "conflictLoop p pe (xs @ a # ys) sid dt = conflictLoop p pe (xs @ b # ys) sid dt"
  using assms by (induction xs) simp_all

text \<open>
  Claim C9. An appointment whose \<open>endTime\<close> is the empty string is treated exactly like one
  with no \<open>endTime\<close>: its end is the fallback, 60 minutes after its time, and replacing the
  one by the other anywhere in the list leaves the result of \<open>isTimeSlotAvailable\<close> unchanged.
\<close>
theorem empty_endTime_uses_fallback:
  "appointmentEndTime (a\<lparr>endTime := Some []\<rparr>) = getAppointmentEndTime (time a) 60
   \<and> appointmentEndTime (a\<lparr>endTime := Some []\<rparr>) = appointmentEndTime (a\<lparr>endTime := None\<rparr>)
   \<and> isTimeSlotAvailable proposedStart serviceDuration (xs @ a\<lparr>endTime := Some []\<rparr> # ys) sid dt
     = isTimeSlotAvailable proposedStart serviceDuration (xs @ a\<lparr>endTime := None\<rparr> # ys) sid dt"
proof -
  have e: "appointmentEndTime (a\<lparr>endTime := Some []\<rparr>) = appointmentEndTime (a\<lparr>endTime := None\<rparr>)"
    by (simp add: appointmentEndTime_def)
  have "conflictLoop p pe (xs @ a\<lparr>endTime := Some []\<rparr> # ys) sid dt
        = conflictLoop p pe (xs @ a\<lparr>endTime := None\<rparr> # ys) sid dt" for p pe
    by (rule conflictLoop_replace) (simp_all add: e)
  then show ?thesis by (simp add: isTimeSlotAvailable_def appointmentEndTime_def)
qed

theorem empty_endTime_uses_fallback_witness:
  "appointmentEndTime \<lparr>staffId = ''s1'', date = ''2025-07-14'', time = ''09:00'', endTime = Some [],
       status = Confirmed\<rparr> = ''10:00''
   \<and> isTimeSlotAvailable ''09:30'' 30
     [\<lparr>staffId = ''s1'', date = ''2025-07-14'', time = ''09:00'', endTime = Some [],
       status = Confirmed\<rparr>] ''s1'' ''2025-07-14'' = False
   \<and> isTimeSlotAvailable ''10:00'' 30
     [\<lparr>staffId = ''s1'', date = ''2025-07-14'', time = ''09:00'', endTime = Some [],
       status = Confirmed\<rparr>] ''s1'' ''2025-07-14'' = True"
proof -
  let ?a = "\<lparr>staffId = ''s1'', date = ''2025-07-14'', time = ''09:00'', endTime = None,
       status = Confirmed\<rparr>"
  have g: "getAppointmentEndTime ''09:00'' 60 = ''10:00''"
    by (simp add: time_eval string_eval)
  have one: "isTimeSlotAvailable ''09:30'' 30 [?a] ''s1'' ''2025-07-14'' = False"
    by (simp add: isTimeSlotAvailable_def appointmentEndTime_def doTimeRangesOverlap_def
        num_lt_def time_eval string_eval)
  have two: "isTimeSlotAvailable ''10:00'' 30 [?a] ''s1'' ''2025-07-14'' = True"
    by (simp add: isTimeSlotAvailable_def appointmentEndTime_def doTimeRangesOverlap_def
        num_lt_def time_eval string_eval)
  note t = empty_endTime_uses_fallback [of ?a _ _ "[]" "[]" "''s1''" "''2025-07-14''"]
  let ?b = "\<lparr>staffId = ''s1'', date = ''2025-07-14'', time = ''09:00'', endTime = Some [],
       status = Confirmed\<rparr>"
  have a: "appointmentEndTime ?b = getAppointmentEndTime ''09:00'' 60"
    using t [of "''09:30''" 30] by simp
  have b1: "isTimeSlotAvailable ''09:30'' 30 [?b] ''s1'' ''2025-07-14''
            = isTimeSlotAvailable ''09:30'' 30 [?a] ''s1'' ''2025-07-14''"
    using t [of "''09:30''" 30] by simp
  have b2: "isTimeSlotAvailable ''10:00'' 30 [?b] ''s1'' ''2025-07-14''
            = isTimeSlotAvailable ''10:00'' 30 [?a] ''s1'' ''2025-07-14''"
    using t [of "''10:00''" 30] by simp
  show ?thesis by (simp only: a g b1 b2 one two simp_thms)
qed

section \<open>Properties of the slot enumeration\<close>

text \<open>
  Claim C6. When the weekday of the date is no key of the staff member's availability, or
  its entry has \<open>available\<close> false, \<open>generateAvailableTimeSlots\<close> returns the empty sequence,
  whatever the service's duration and the existing appointments are.
\<close>
theorem unavailable_day_no_slots:
  assumes "availability staffMember (dayNameOf dt) = None
           \<or> (\<exists>av. availability staffMember (dayNameOf dt) = Some av \<and> \<not> available av)"
  shows "generateAvailableTimeSlots dayNameOf dt staffMember service existingAppointments = []"
  using assms by (auto simp: generateAvailableTimeSlots_def)

theorem unavailable_day_no_slots_witness:
  "generateAvailableTimeSlots (\<lambda>d. ''sunday'') ''2025-07-13''
     \<lparr>staffMemberId = ''s1'',
      availability = [''sunday'' \<mapsto> \<lparr>start = ''09:00'', finish = ''17:00'', available = False\<rparr>]\<rparr>
     \<lparr>duration = 45\<rparr> [] = []
   \<and> generateAvailableTimeSlots (\<lambda>d. ''sunday'') ''2025-07-13''
     \<lparr>staffMemberId = ''s1'', availability = Map.empty\<rparr> \<lparr>duration = 45\<rparr> [] = []"
proof -
  let ?s = "\<lparr>staffMemberId = ''s1'',
      availability = [''sunday'' \<mapsto> \<lparr>start = ''09:00'', finish = ''17:00'', available = False\<rparr>]\<rparr>"
  let ?e = "\<lparr>staffMemberId = ''s1'', availability = Map.empty\<rparr>"
  have one: "generateAvailableTimeSlots (\<lambda>d. ''sunday'') ''2025-07-13'' ?s \<lparr>duration = 45\<rparr> [] = []"
    using unavailable_day_no_slots [where dayNameOf = "\<lambda>d. ''sunday''" and dt = "''2025-07-13''"
        and staffMember = ?s and service = "\<lparr>duration = 45\<rparr>" and existingAppointments = "[]"]
    by simp
  have two: "generateAvailableTimeSlots (\<lambda>d. ''sunday'') ''2025-07-13'' ?e \<lparr>duration = 45\<rparr> [] = []"
    using unavailable_day_no_slots [where dayNameOf = "\<lambda>d. ''sunday''" and dt = "''2025-07-13''"
        and staffMember = ?e and service = "\<lparr>duration = 45\<rparr>" and existingAppointments = "[]"]
    by simp
  from one two show ?thesis by (rule conjI)
qed

lemma isTimeSlotAvailable_Nil: "isTimeSlotAvailable p d [] sid dt = True"
  by (simp add: isTimeSlotAvailable_def)

lemma slotLoop_done: "\<not> t < e \<Longrightarrow> slotLoop t e d appts sid dt = []"
  by (simp add: slotLoop.simps [of t])

lemma slotLoop_step:
  "t < e \<Longrightarrow> slotLoop t e d appts sid dt =
     (if t + d \<le> e \<and> isTimeSlotAvailable (toTimeString5 t) d appts sid dt
      then [toTimeString5 t] else []) @ slotLoop (t + 30) e d appts sid dt"
  by (simp add: slotLoop.simps [of t] Let_def)

lemma slotLoop_members:
  "x \<in> set (slotLoop t e d appts sid dt) \<Longrightarrow>
     \<exists>k::nat. x = toTimeString5 (t + 30 * int k) \<and> t + 30 * int k < e
        \<and> t + 30 * int k + d \<le> e \<and> isTimeSlotAvailable x d appts sid dt"
proof (induction t e d appts sid dt rule: slotLoop.induct)
  case (1 t e d appts sid dt)
  show ?case
  proof (cases "t < e")
    case False
    with "1.prems" show ?thesis by (simp add: slotLoop_done)
  next
    case True
    with "1.prems" consider
      (here) "x = toTimeString5 t" "t + d \<le> e" "isTimeSlotAvailable (toTimeString5 t) d appts sid dt"
      | (later) "x \<in> set (slotLoop (t + 30) e d appts sid dt)"
      by (auto simp: slotLoop_step split: if_splits)
    then show ?thesis
    proof cases
      case here
      with True have "x = toTimeString5 (t + 30 * int 0) \<and> t + 30 * int 0 < e
        \<and> t + 30 * int 0 + d \<le> e \<and> isTimeSlotAvailable x d appts sid dt"
        by simp
      then show ?thesis by blast
    next
      case later
      from "1.IH" [OF True refl refl later] obtain k :: nat where
        k: "x = toTimeString5 (t + 30 + 30 * int k)" "t + 30 + 30 * int k < e"
        "t + 30 + 30 * int k + d \<le> e" "isTimeSlotAvailable x d appts sid dt"
        by blast
      have "t + 30 + 30 * int k = t + 30 * int (Suc k)" by simp
      with k have "x = toTimeString5 (t + 30 * int (Suc k)) \<and> t + 30 * int (Suc k) < e
        \<and> t + 30 * int (Suc k) + d \<le> e \<and> isTimeSlotAvailable x d appts sid dt"
        by simp
      then show ?thesis by blast
    qed
  qed
qed

lemma generate_members:
  assumes "x \<in> set (generateAvailableTimeSlots dayNameOf dt staffMember service appts)"
  shows "\<exists>av s e k. availability staffMember (dayNameOf dt) = Some av \<and> available av
           \<and> dateOfClock (start av) = Some s \<and> dateOfClock (finish av) = Some e
           \<and> x = toTimeString5 (s + 30 * int k) \<and> s + 30 * int k < e
           \<and> s + 30 * int k + duration service \<le> e
           \<and> isTimeSlotAvailable x (duration service) appts (staffMemberId staffMember) dt"
proof -
  from assms obtain av where av: "availability staffMember (dayNameOf dt) = Some av"
    by (cases "availability staffMember (dayNameOf dt)")
      (auto simp: generateAvailableTimeSlots_def)
  with assms have avail: "available av"
    by (cases "available av") (auto simp: generateAvailableTimeSlots_def)
  from assms av avail obtain s where s: "dateOfClock (start av) = Some s"
    by (cases "dateOfClock (start av)") (auto simp: generateAvailableTimeSlots_def)
  from assms av avail s obtain e where e: "dateOfClock (finish av) = Some e"
    by (cases "dateOfClock (finish av)") (auto simp: generateAvailableTimeSlots_def)
  from assms av avail s e
  have x: "x \<in> set (slotLoop s e (duration service) appts (staffMemberId staffMember) dt)"
    by (simp add: generateAvailableTimeSlots_def)
  note av = av avail and se = s e
  from slotLoop_members [OF x] av se show ?thesis by blast
qed

lemma slot_minutes:
  assumes "dateOfClock a = Some s" "dateOfClock b = Some e" "s + 30 * int k < e"
  shows "timeToMinutes (toTimeString5 (s + 30 * int k)) = Some (s + 30 * int k)"
proof -
  from dateOfClock_Some [OF assms(1)] have "0 \<le> s" by simp
  moreover from dateOfClock_Some [OF assms(2)] have "e < 1440" by simp
  ultimately show ?thesis using assms(3) by (intro toTimeString5_minutes) auto
qed

text \<open>
  Claim C4. Every start time returned by \<open>generateAvailableTimeSlots\<close> passes the fit check:
  for a day whose configured start and end are valid clock times, the minutes of a returned
  slot plus the service's duration are at most the minutes of the day's end, whatever the
  date, the staff member, the service and the appointments are.
\<close>
theorem generated_slots_fit:
  assumes "availability staffMember (dayNameOf dt) = Some av"
    and "validClock (start av)" and "validClock (finish av)"
    and "x \<in> set (generateAvailableTimeSlots dayNameOf dt staffMember service appts)"
  shows "\<exists>c e. timeToMinutes x = Some c \<and> timeToMinutes (finish av) = Some e
           \<and> c + duration service \<le> e"
proof -
  from generate_members [OF assms(4)] assms(1) obtain s e k where
    se: "dateOfClock (start av) = Some s" "dateOfClock (finish av) = Some e"
    and x: "x = toTimeString5 (s + 30 * int k)" "s + 30 * int k < e"
    "s + 30 * int k + duration service \<le> e"
    by auto
  from slot_minutes [OF se x(2)] x(1) have "timeToMinutes x = Some (s + 30 * int k)" by simp
  moreover from dateOfClock_Some [OF se(2)] have "timeToMinutes (finish av) = Some e" by simp
  ultimately show ?thesis using x(3) by blast
qed

text \<open>
  Claim C7, as the code has it. Every start time returned by \<open>generateAvailableTimeSlots\<close>
  is the day's configured start plus a whole number of 30-minute steps; the step is fixed
  and does not depend on the service's duration. The minute component of a slot is its
  minute value modulo 60, and the slot is congruent to the configured start modulo 30: the
  slots lie on the half-hour grid (minute 00 or 30) when the start does, and a start such
  as 09:15 gives slots at minute 15 and 45.
\<close>
theorem generated_slots_grid:
  assumes "availability staffMember (dayNameOf dt) = Some av"
    and "validClock (start av)" and "validClock (finish av)"
    and "x \<in> set (generateAvailableTimeSlots dayNameOf dt staffMember service appts)"
  shows "\<exists>s c k. timeToMinutes (start av) = Some s \<and> timeToMinutes x = Some c
           \<and> c = s + 30 * int k
           \<and> map Number_of (split (CHR '':'') x) = [Some (c div 60), Some (c mod 60)]
           \<and> c mod 30 = s mod 30"
proof -
  from generate_members [OF assms(4)] assms(1) obtain s e k where
    se: "dateOfClock (start av) = Some s" "dateOfClock (finish av) = Some e"
    and x: "x = toTimeString5 (s + 30 * int k)" "s + 30 * int k < e"
    by auto
  let ?c = "s + 30 * int k"
  from dateOfClock_Some [OF se(1)] have s: "timeToMinutes (start av) = Some s" "0 \<le> s" by simp_all
  from dateOfClock_Some [OF se(2)] have "e < 1440" by simp
  with x(2) s(2) have c: "0 \<le> ?c" "?c < 1440" by auto
  then have d: "(?c div 60) mod 24 = ?c div 60" "0 \<le> ?c div 60" "0 \<le> ?c mod 60" by auto
  have "timeToMinutes x = Some ?c" using slot_minutes [OF se x(2)] x(1) by simp
  moreover have "map Number_of (split (CHR '':'') x) = [Some (?c div 60), Some (?c mod 60)]"
    unfolding x(1) toTimeString5_def d(1)
    using d(2,3) by (simp add: split_join Number_of_padded)
  moreover have "?c mod 30 = s mod 30" by simp
  ultimately have "timeToMinutes (start av) = Some s \<and> timeToMinutes x = Some ?c
           \<and> ?c = s + 30 * int k
           \<and> map Number_of (split (CHR '':'') x) = [Some (?c div 60), Some (?c mod 60)]
           \<and> ?c mod 30 = s mod 30"
    using s(1) by simp
  then show ?thesis by (intro exI)
qed

lemmas slot_eval = generateAvailableTimeSlots_def dateOfClock_def digitVal_def decimalDigits_def
  slotLoop_step slotLoop_done isTimeSlotAvailable_Nil toTimeString5_def natToString.simps
  padStart2_def digitChar_def

text \<open>
  Claim C3, as the code has it. For a staff member whose availability on the weekday of the
  date is 09:00 to 17:00 and available, a service of 60 minutes and no appointments,
  \<open>generateAvailableTimeSlots\<close> returns exactly the fifteen start times 09:00, 09:30, and so
  on up to 16:00. The last one is 16:00, which ends at 17:00 and fits exactly; 16:30, the
  sixteenth candidate of the loop, is excluded.
\<close>
theorem monday_nine_to_five_slots:
  assumes "availability staffMember (dayNameOf dt)
             = Some \<lparr>start = ''09:00'', finish = ''17:00'', available = True\<rparr>"
    and "duration service = 60"
  shows "generateAvailableTimeSlots dayNameOf dt staffMember service []
           = [''09:00'', ''09:30'', ''10:00'', ''10:30'', ''11:00'', ''11:30'', ''12:00'', ''12:30'',
              ''13:00'', ''13:30'', ''14:00'', ''14:30'', ''15:00'', ''15:30'', ''16:00'']
         \<and> length (generateAvailableTimeSlots dayNameOf dt staffMember service []) = 15
         \<and> ''16:30'' \<notin> set (generateAvailableTimeSlots dayNameOf dt staffMember service [])"
  using assms by (simp add: slot_eval)

lemma example_monday_slots:
  "generateAvailableTimeSlots (\<lambda>d. ''monday'') ''2025-07-14''
     \<lparr>staffMemberId = ''s1'',
      availability = [''monday'' \<mapsto> \<lparr>start = ''09:00'', finish = ''17:00'', available = True\<rparr>]\<rparr>
     \<lparr>duration = 60\<rparr> []
   = [''09:00'', ''09:30'', ''10:00'', ''10:30'', ''11:00'', ''11:30'', ''12:00'', ''12:30'',
      ''13:00'', ''13:30'', ''14:00'', ''14:30'', ''15:00'', ''15:30'', ''16:00'']"
  by (simp add: slot_eval)

lemma example_quarter_slots:
  "generateAvailableTimeSlots (\<lambda>d. ''monday'') ''2025-07-14''
     \<lparr>staffMemberId = ''s1'',
      availability = [''monday'' \<mapsto> \<lparr>start = ''09:15'', finish = ''10:30'', available = True\<rparr>]\<rparr>
     \<lparr>duration = 20\<rparr> []
   = [''09:15'', ''09:45'']"
  by (simp add: slot_eval)

lemma validClock_0900: "validClock ''09:00''"
  by (simp add: validClock_def digitVal_def decimalDigits_def)

lemma validClock_1700: "validClock ''17:00''"
  by (simp add: validClock_def digitVal_def decimalDigits_def)

lemma validClock_0915: "validClock ''09:15''"
  by (simp add: validClock_def digitVal_def decimalDigits_def)

lemma validClock_1030: "validClock ''10:30''"
  by (simp add: validClock_def digitVal_def decimalDigits_def)

theorem generated_slots_fit_witness:
  "validClock ''09:00'' \<and> validClock ''17:00''
   \<and> ''16:00'' \<in> set (generateAvailableTimeSlots (\<lambda>d. ''monday'') ''2025-07-14''
        \<lparr>staffMemberId = ''s1'',
         availability = [''monday'' \<mapsto> \<lparr>start = ''09:00'', finish = ''17:00'', available = True\<rparr>]\<rparr>
        \<lparr>duration = 60\<rparr> [])
   \<and> (\<exists>c e. timeToMinutes ''16:00'' = Some c \<and> timeToMinutes ''17:00'' = Some e \<and> c + 60 \<le> e)"
proof -
  let ?av = "\<lparr>start = ''09:00'', finish = ''17:00'', available = True\<rparr>"
  let ?s = "\<lparr>staffMemberId = ''s1'', availability = [''monday'' \<mapsto> ?av]\<rparr>"
  have a: "availability ?s ((\<lambda>d. ''monday'') ''2025-07-14'') = Some ?av" by simp
  have b: "validClock (start ?av)" "validClock (finish ?av)"
    by (simp_all add: validClock_0900 validClock_1700)
  have c: "''16:00'' \<in> set (generateAvailableTimeSlots (\<lambda>d. ''monday'') ''2025-07-14'' ?s
        \<lparr>duration = 60\<rparr> [])"
    by (simp only: example_monday_slots) simp
  have "\<exists>c e. timeToMinutes ''16:00'' = Some c \<and> timeToMinutes (finish ?av) = Some e
          \<and> c + duration \<lparr>duration = 60\<rparr> \<le> e"
    using a b c by (rule generated_slots_fit)
  then have "\<exists>c e. timeToMinutes ''16:00'' = Some c \<and> timeToMinutes ''17:00'' = Some e \<and> c + 60 \<le> e"
    by simp
  with c show ?thesis by (simp only: validClock_0900 validClock_1700 simp_thms)
qed

theorem generated_slots_grid_witness:
  "validClock ''09:15'' \<and> validClock ''10:30''
   \<and> ''09:45'' \<in> set (generateAvailableTimeSlots (\<lambda>d. ''monday'') ''2025-07-14''
        \<lparr>staffMemberId = ''s1'',
         availability = [''monday'' \<mapsto> \<lparr>start = ''09:15'', finish = ''10:30'', available = True\<rparr>]\<rparr>
        \<lparr>duration = 20\<rparr> [])
   \<and> (\<exists>s c k. timeToMinutes ''09:15'' = Some s \<and> timeToMinutes ''09:45'' = Some c
           \<and> c = s + 30 * int k
           \<and> map Number_of (split (CHR '':'') ''09:45'') = [Some (c div 60), Some (c mod 60)]
           \<and> c mod 30 = s mod 30)"
proof -
  let ?av = "\<lparr>start = ''09:15'', finish = ''10:30'', available = True\<rparr>"
  let ?s = "\<lparr>staffMemberId = ''s1'', availability = [''monday'' \<mapsto> ?av]\<rparr>"
  have a: "availability ?s ((\<lambda>d. ''monday'') ''2025-07-14'') = Some ?av" by simp
  have b: "validClock (start ?av)" "validClock (finish ?av)"
    by (simp_all add: validClock_0915 validClock_1030)
  have c: "''09:45'' \<in> set (generateAvailableTimeSlots (\<lambda>d. ''monday'') ''2025-07-14'' ?s
        \<lparr>duration = 20\<rparr> [])"
    by (simp only: example_quarter_slots) simp
  have "\<exists>s c k. timeToMinutes (start ?av) = Some s \<and> timeToMinutes ''09:45'' = Some c
           \<and> c = s + 30 * int k
           \<and> map Number_of (split (CHR '':'') ''09:45'') = [Some (c div 60), Some (c mod 60)]
           \<and> c mod 30 = s mod 30"
    using a b c by (rule generated_slots_grid)
  then have "\<exists>s c k. timeToMinutes ''09:15'' = Some s \<and> timeToMinutes ''09:45'' = Some c
           \<and> c = s + 30 * int k
           \<and> map Number_of (split (CHR '':'') ''09:45'') = [Some (c div 60), Some (c mod 60)]
           \<and> c mod 30 = s mod 30"
    by simp
  with c show ?thesis by (simp only: validClock_0915 validClock_1030 simp_thms)
qed

theorem off_grid_start_counterexample:
  "generateAvailableTimeSlots (\<lambda>d. ''monday'') ''2025-07-14''
     \<lparr>staffMemberId = ''s1'',
      availability = [''monday'' \<mapsto> \<lparr>start = ''09:15'', finish = ''10:30'', available = True\<rparr>]\<rparr>
     \<lparr>duration = 20\<rparr> []
   = [''09:15'', ''09:45'']
   \<and> map Number_of (split (CHR '':'') ''09:15'') = [Some 9, Some 15]
   \<and> map Number_of (split (CHR '':'') ''09:45'') = [Some 9, Some 45]"
  using example_quarter_slots by (simp add: Number_of_def digitVal_def decimalDigits_def)

theorem monday_nine_to_five_slots_witness:
  "generateAvailableTimeSlots (\<lambda>d. ''monday'') ''2025-07-14''
     \<lparr>staffMemberId = ''s1'',
      availability = [''monday'' \<mapsto> \<lparr>start = ''09:00'', finish = ''17:00'', available = True\<rparr>]\<rparr>
     \<lparr>duration = 60\<rparr> []
   = [''09:00'', ''09:30'', ''10:00'', ''10:30'', ''11:00'', ''11:30'', ''12:00'', ''12:30'',
      ''13:00'', ''13:30'', ''14:00'', ''14:30'', ''15:00'', ''15:30'', ''16:00'']"
proof -
  let ?av = "\<lparr>start = ''09:00'', finish = ''17:00'', available = True\<rparr>"
  let ?s = "\<lparr>staffMemberId = ''s1'', availability = [''monday'' \<mapsto> ?av]\<rparr>"
  have a: "availability ?s ((\<lambda>d. ''monday'') ''2025-07-14'') = Some ?av" by simp
  have b: "duration \<lparr>duration = 60\<rparr> = 60" by simp
  from monday_nine_to_five_slots [where dayNameOf = "\<lambda>d. ''monday''", OF a b]
  show ?thesis by (rule conjunct1)
qed

theorem sixteen_slots_counterexample:
  "length (generateAvailableTimeSlots (\<lambda>d. ''monday'') ''2025-07-14''
     \<lparr>staffMemberId = ''s1'',
      availability = [''monday'' \<mapsto> \<lparr>start = ''09:00'', finish = ''17:00'', available = True\<rparr>]\<rparr>
     \<lparr>duration = 60\<rparr> []) \<noteq> 16"
  by (simp only: example_monday_slots) simp

section \<open>The round trip beyond the exact range\<close>

lemmas double_eval = minutesToTime64_def timeToMinutes64_def num_floor_div64_def floorDiv64_def
  roundDouble_def roundHalfEven_def Number_of64_def num_add64_def num_mul64_def ilog2.simps

lemma big_to_string: "minutesToTime64 (Some 36028797018964024) = ''600479950316067:04''"
  by (simp add: double_eval string_eval decimalDigits_def Let_def)

lemma big_to_minutes: "timeToMinutes64 ''600479950316067:04'' = Some 36028797018964016"
  by (simp add: double_eval time_eval Let_def)

lemma big_is_double: "roundDouble 36028797018964024 = 36028797018964024"
  by (simp add: double_eval Let_def)

theorem large_minutes_counterexample:
  "roundDouble 36028797018964024 = 36028797018964024
   \<and> minutesToTime64 (Some 36028797018964024) = ''600479950316067:04''
   \<and> timeToMinutes64 (minutesToTime64 (Some 36028797018964024)) = Some 36028797018964016
   \<and> timeToMinutes64 (minutesToTime64 (Some 36028797018964024)) \<noteq> Some 36028797018964024"
proof -
  have "timeToMinutes64 (minutesToTime64 (Some 36028797018964024)) = Some 36028797018964016"
    by (simp only: big_to_string big_to_minutes)
  then show ?thesis using big_is_double big_to_string by simp
qed

end
